theory Spec2Isabelle
  imports Main "HOL-Library.AList"
begin

section \<open>JavaScript values\<close>

text \<open>
  The normalizer is generic: it walks plain JavaScript values. A value is modelled by
  the datatype below. An object is the list of its own properties in insertion order
  (reading a property takes the first entry of a key, assigning replaces that entry in
  place or appends a new one, as \<open>map_of\<close> and \<open>AList.update\<close> do; that JavaScript
  lists integer-like keys first is left out). Numbers are the integers; the entity
  identifiers of \<open>schema.ts\<close> are \<open>string | number\<close>.
  Only own data properties of plain objects are modelled: a string, number, boolean or
  array used where an entity is expected has no property in the model and spreads to the
  empty object (the prototype chain, \<open>length\<close> and index properties are left out).
\<close>

datatype jsval =
    JUndefined
  | JNull
  | JBool bool
  | JNum int
  | JStr string
  | JArr "jsval list"
  | JObj "(string \<times> jsval) list"

datatype error =
    SchemaNotFound string
  | MissingIdentifier string string
  | TypeError

text \<open>\<open>SchemaNotFound k\<close> is \<open>new Error(`Schema not found for key: ${k}`)\<close>,
  \<open>MissingIdentifier k t\<close> is
  \<open>new Error(`Entity ID not found using key '${k}' for type '${t}'`)\<close>, and
  \<open>TypeError\<close> is what the runtime throws when a property of \<open>undefined\<close> or
  \<open>null\<close> is read or written.\<close>

fun truthy :: "jsval \<Rightarrow> bool" where
  "truthy JUndefined = False"
| "truthy JNull = False"
| "truthy (JBool b) = b"
| "truthy (JNum n) = (n \<noteq> 0)"
| "truthy (JStr s) = (s \<noteq> [])"
| "truthy (JArr xs) = True"
| "truthy (JObj kvs) = True"

definition lookup :: "(string \<times> jsval) list \<Rightarrow> string \<Rightarrow> jsval" where
  "lookup kvs k = (case map_of kvs k of None \<Rightarrow> JUndefined | Some v \<Rightarrow> v)"

text \<open>\<open>entity[key]\<close>: reading a property of \<open>undefined\<close> or \<open>null\<close> throws.\<close>

fun getProp :: "jsval \<Rightarrow> string \<Rightarrow> error + jsval" where
  "getProp JUndefined k = Inl TypeError"
| "getProp JNull k = Inl TypeError"
| "getProp (JObj kvs) k = Inr (lookup kvs k)"
| "getProp v k = Inr JUndefined"

text \<open>\<open>{ ...entity }\<close>: the own properties of an object, copied.\<close>

fun spreadObj :: "jsval \<Rightarrow> (string \<times> jsval) list" where
  "spreadObj (JObj kvs) = kvs"
| "spreadObj v = []"

text \<open>\<open>Object.entries(o)\<close>: one entry for each key.\<close>

definition entries :: "(string \<times> 'v) list \<Rightarrow> (string \<times> 'v) list" where
  "entries kvs = AList.clearjunk kvs"

text \<open>\<open>{ ...a, ...b }\<close>: the properties of \<open>b\<close> assigned onto a copy of \<open>a\<close>.\<close>

definition spread :: "(string \<times> 'v) list \<Rightarrow> (string \<times> 'v) list \<Rightarrow> (string \<times> 'v) list" where
  "spread a b = fold (\<lambda>(k, v). AList.update k v) (entries b) a"

subsection \<open>Property keys\<close>

text \<open>An identifier used as a property key (\<open>entities[type][id]\<close>) or in a template
  literal is converted to a string.\<close>

definition digit :: "nat \<Rightarrow> char" where
  "digit n = ''0123456789'' ! (n mod 10)"

fun showNat :: "nat \<Rightarrow> string" where
  "showNat n = (if n < 10 then [digit n] else showNat (n div 10) @ [digit n])"

declare showNat.simps [simp del]

definition showInt :: "int \<Rightarrow> string" where
  "showInt i = (if i < 0 then CHR ''-'' # showNat (nat (- i)) else showNat (nat i))"

fun joinWith :: "string \<Rightarrow> string list \<Rightarrow> string" where
  "joinWith sep [] = []"
| "joinWith sep [x] = x"
| "joinWith sep (x # y # ys) = x @ sep @ joinWith sep (y # ys)"

fun toKey :: "jsval \<Rightarrow> string" where
  "toKey JUndefined = ''undefined''"
| "toKey JNull = ''null''"
| "toKey (JBool b) = (if b then ''true'' else ''false'')"
| "toKey (JNum n) = showInt n"
| "toKey (JStr s) = s"
| "toKey (JArr xs) =
     joinWith '','' (map (\<lambda>x. if x = JUndefined \<or> x = JNull then [] else toKey x) xs)"
| "toKey (JObj kvs) = ''[object Object]''"

section \<open>Schemas (schema.ts)\<close>

record relationshipConfig =
  rtype :: string
  isArray :: bool

definition hasOne :: "string \<Rightarrow> relationshipConfig" where
  "hasOne entityType = \<lparr>rtype = entityType, isArray = False\<rparr>"

definition hasMany :: "string \<Rightarrow> relationshipConfig" where
  "hasMany entityType = \<lparr>rtype = entityType, isArray = True\<rparr>"

record entitySchema =
  idKey :: "string option"
  relationships :: "(string \<times> relationshipConfig) list option"

definition createEntitySchema ::
  "string option \<Rightarrow> (string \<times> relationshipConfig) list option \<Rightarrow> entitySchema" where
  "createEntitySchema k rels =
     \<lparr>idKey = Some (case k of None \<Rightarrow> ''id'' | Some s \<Rightarrow> s),
      relationships = Some (case rels of None \<Rightarrow> [] | Some r \<Rightarrow> r)\<rparr>"

type_synonym entitySchemaMap = "string \<rightharpoonup> entitySchema"

type_synonym entityMap = "(string \<times> jsval) list"

type_synonym entityColls = "(string \<times> entityMap) list"

record normalizedData =
  entities :: entityColls
  result :: jsval

text \<open>\<open>schema.idKey || 'id'\<close>: a missing or empty key falls back to \<open>'id'\<close>.\<close>

definition idKeyOf :: "entitySchema \<Rightarrow> string" where
  "idKeyOf schema = (case idKey schema of None \<Rightarrow> ''id'' | Some k \<Rightarrow> if k = [] then ''id'' else k)"

section \<open>The normalizer (normalizer.ts)\<close>

text \<open>The weight of a value bounds the recursion of the normalizer: a property of an
  object weighs less than the object, an element less than its array.\<close>

fun weight :: "jsval \<Rightarrow> nat" where
  "weight (JArr xs) = Suc (sum_list (map (\<lambda>x. Suc (weight x)) xs))"
| "weight (JObj kvs) = Suc (sum_list (map (\<lambda>p. Suc (weight (snd p))) kvs))"
| "weight v = 0"

definition weightL :: "jsval list \<Rightarrow> nat" where
  "weightL xs = sum_list (map (\<lambda>x. Suc (weight x)) xs)"

definition weightO :: "(string \<times> jsval) list \<Rightarrow> nat" where
  "weightO kvs = sum_list (map (\<lambda>p. Suc (weight (snd p))) kvs)"

fun isJArr :: "jsval \<Rightarrow> bool" where
  "isJArr (JArr xs) = True"
| "isJArr v = False"

fun elems :: "jsval \<Rightarrow> jsval list" where
  "elems (JArr xs) = xs"
| "elems v = []"

lemma weight_lookup: "lookup kvs k = v \<Longrightarrow> v \<noteq> JUndefined \<Longrightarrow> weight v < weightO kvs"
  by (induction kvs) (auto simp: lookup_def weightO_def split: if_splits)

lemma weightO_update:
  "lookup kvs k \<noteq> JUndefined \<Longrightarrow> weight v \<le> weight (lookup kvs k)
     \<Longrightarrow> weightO (AList.update k v kvs) \<le> weightO kvs"
  by (induction kvs) (auto simp: lookup_def weightO_def split: if_splits)

lemma weightL_elems: "isJArr v \<Longrightarrow> weight v = Suc (weightL (elems v))"
  by (cases v) (auto simp: weightL_def)

lemma getProp_Inr: "getProp e k = Inr v \<Longrightarrow> v \<noteq> JUndefined \<Longrightarrow> \<exists>kvs. e = JObj kvs \<and> v = lookup kvs k"
  by (cases e) auto

text \<open>
  \<open>processEntity\<close> threads \<open>normalizedData.entities\<close>, which it mutates, through its
  calls: it takes the collections and returns them with the identifier; a thrown error
  ends the call. \<open>processRels\<close> is its loop over \<open>Object.entries(schema.relationships)\<close>,
  which reads and assigns the fields of the copy \<open>processedEntity\<close>; \<open>processList\<close> is
  the callback of \<open>map\<close> run over the elements of an array, in order. \<open>initColl\<close> is
  the initialisation of the collection of a type that does not exist yet.
\<close>

definition initColl :: "string \<Rightarrow> entityColls \<Rightarrow> entityColls" where
  "initColl entityType nd =
     (if map_of nd entityType = None then AList.update entityType [] nd else nd)"

function processEntity ::
    "jsval \<Rightarrow> string \<Rightarrow> entitySchema option \<Rightarrow> entitySchemaMap \<Rightarrow> entityColls
      \<Rightarrow> error + (jsval \<times> entityColls)"
  and processRels ::
    "(string \<times> relationshipConfig) list \<Rightarrow> (string \<times> jsval) list \<Rightarrow> entitySchemaMap
      \<Rightarrow> entityColls \<Rightarrow> error + ((string \<times> jsval) list \<times> entityColls)"
  and processList ::
    "jsval list \<Rightarrow> string \<Rightarrow> entitySchemaMap \<Rightarrow> entityColls
      \<Rightarrow> error + (jsval list \<times> entityColls)"
where
  "processEntity entity entityType schema schemaMap nd =
     (case schema of
        None \<Rightarrow> Inl TypeError
      | Some sch \<Rightarrow>
          (case getProp entity (idKeyOf sch) of
             Inl e \<Rightarrow> Inl e
           | Inr entityId \<Rightarrow>
               if entityId = JUndefined
               then Inl (MissingIdentifier (idKeyOf sch) entityType)
               else
                 (case (case relationships sch of
                          None \<Rightarrow> Inr (spreadObj entity, initColl entityType nd)
                        | Some rels \<Rightarrow>
                            processRels (entries rels) (spreadObj entity) schemaMap
                              (initColl entityType nd)) of
                    Inl e \<Rightarrow> Inl e
                  | Inr (processedEntity, nd') \<Rightarrow>
                      (case map_of nd' entityType of
                         None \<Rightarrow> Inl TypeError
                       | Some coll \<Rightarrow>
                           Inr (entityId,
                                AList.update entityType
                                  (AList.update (toKey entityId) (JObj processedEntity) coll)
                                  nd')))))"
| "processRels [] processedEntity schemaMap nd = Inr (processedEntity, nd)"
| "processRels ((key, rc) # rest) processedEntity schemaMap nd =
     (let value = lookup processedEntity key in
      if value \<noteq> JUndefined
      then
        (if isArray rc \<and> isJArr value
         then (case processList (elems value) (rtype rc) schemaMap nd of
                 Inl e \<Rightarrow> Inl e
               | Inr (ids, nd') \<Rightarrow>
                   processRels rest (AList.update key (JArr ids) processedEntity) schemaMap nd')
         else if \<not> isArray rc \<and> value \<noteq> JNull
         then (case processEntity value (rtype rc) (schemaMap (rtype rc)) schemaMap nd of
                 Inl e \<Rightarrow> Inl e
               | Inr (i, nd') \<Rightarrow>
                   processRels rest (AList.update key i processedEntity) schemaMap nd')
         else processRels rest processedEntity schemaMap nd)
      else processRels rest processedEntity schemaMap nd)"
| "processList [] entityType schemaMap nd = Inr ([], nd)"
| "processList (item # items) entityType schemaMap nd =
     (case processEntity item entityType (schemaMap entityType) schemaMap nd of
        Inl e \<Rightarrow> Inl e
      | Inr (i, nd') \<Rightarrow>
          (case processList items entityType schemaMap nd' of
             Inl e \<Rightarrow> Inl e
           | Inr (ids, nd'') \<Rightarrow> Inr (i # ids, nd'')))"
  by pat_completeness auto


lemma weight_lookup_Suc: "lookup kvs k \<noteq> JUndefined \<Longrightarrow> weight (lookup kvs k) < Suc (weightO kvs)"
  using weight_lookup[of kvs k] by auto

lemma processEntity_id:
  assumes "processEntity_processRels_processList_dom (Inl (e, t, s, sm, nd))"
    and "processEntity e t s sm nd = Inr (i, nd')"
  shows "weight i < weight e"
  using assms
  by (auto simp: processEntity.psimps weightO_def[symmetric] weight_lookup_Suc split: option.splits sum.splits if_splits prod.splits dest!: getProp_Inr)

lemma processList_ids:
  shows "processEntity_processRels_processList_dom (Inl (e, t, s, sm, nd)) \<Longrightarrow>
       (\<forall>i nd'. processEntity e t s sm nd = Inr (i, nd') \<longrightarrow> weight i < weight e)"
    and "processEntity_processRels_processList_dom (Inr (Inl (rels, pe, sm, nd))) \<Longrightarrow> True"
    and "processEntity_processRels_processList_dom (Inr (Inr (items, t, sm, nd))) \<Longrightarrow>
       (\<forall>ids nd'. processList items t sm nd = Inr (ids, nd') \<longrightarrow> weightL ids \<le> weightL items)"
proof (induct e t s sm nd and rels pe sm nd and items t sm nd rule: processEntity_processRels_processList.pinduct)
  case (1 entity entityType schema schemaMap nd)
  then show ?case by (blast intro: processEntity_id)
next
  case (5 item items entityType schemaMap nd)
  show ?case
  proof (intro allI impI)
    fix ids nd'
    assume r: "processList (item # items) entityType schemaMap nd = Inr (ids, nd')"
    from r 5(1) obtain i nd1 ids1 where
      a: "processEntity item entityType (schemaMap entityType) schemaMap nd = Inr (i, nd1)"
      and b: "processList items entityType schemaMap nd1 = Inr (ids1, nd')"
      and c: "ids = i # ids1"
      by (auto simp: processList.psimps split: sum.splits prod.splits)
    from 5(3)[OF a refl] b have "weightL ids1 \<le> weightL items" by blast
    moreover have "weight i < weight item" using 5(2) a by blast
    ultimately show "weightL ids \<le> weightL (item # items)"
      using c by (simp add: weightL_def)
  qed
qed (simp_all add: processList.psimps weightL_def)

lemma term_list:
  "lookup pe k \<noteq> JUndefined \<Longrightarrow> isJArr (lookup pe k) \<Longrightarrow> weightL (elems (lookup pe k)) < weightO pe"
  using weight_lookup[of pe k "lookup pe k"] weightL_elems[of "lookup pe k"] by auto

lemma term_list_upd:
  assumes "processEntity_processRels_processList_dom (Inr (Inr (elems (lookup pe k), t, sm, nd)))"
    and "processList (elems (lookup pe k)) t sm nd = Inr (ids, nd')"
    and "lookup pe k \<noteq> JUndefined" and "isJArr (lookup pe k)"
  shows "weightO (AList.update k (JArr ids) pe) \<le> weightO pe"
  using processList_ids(3)[OF assms(1)] assms(2-) weightL_elems[of "lookup pe k"]
  by (intro weightO_update) (auto simp: weightL_def[symmetric])

lemma term_ent_upd:
  assumes "processEntity_processRels_processList_dom (Inl (lookup pe k, t, s, sm, nd))"
    and "processEntity (lookup pe k) t s sm nd = Inr (i, nd')"
    and "lookup pe k \<noteq> JUndefined"
  shows "weightO (AList.update k i pe) \<le> weightO pe"
  using processEntity_id[OF assms(1,2)] assms(3)
  by (intro weightO_update) auto

termination processEntity
  apply (relation "measures [\<lambda>x. case x of Inl (e, _) \<Rightarrow> weight e | Inr (Inl (rels, pe, _)) \<Rightarrow> weightO pe | Inr (Inr (items, _)) \<Rightarrow> weightL items,
     \<lambda>x. case x of Inl _ \<Rightarrow> 0 | Inr (Inl (rels, pe, _)) \<Rightarrow> length rels | Inr (Inr _) \<Rightarrow> 0]")
  subgoal by simp
  subgoal by (auto dest!: getProp_Inr simp: weightO_def)
  subgoal by (auto intro: term_list)
  subgoal by (auto dest: term_list_upd simp: le_less)
  subgoal by (auto intro: weight_lookup)
  subgoal by (auto dest: term_ent_upd simp: le_less)
  subgoal by simp
  subgoal by simp
  subgoal by (simp add: weightL_def)
  subgoal by (simp add: weightL_def)
  done


declare processEntity.simps [simp del]

text \<open>\<open>normalize\<close>: the collections start empty; an unknown root type is the one
  thrown \<open>Schema not found\<close>.\<close>

definition normalize :: "jsval \<Rightarrow> string \<Rightarrow> entitySchemaMap \<Rightarrow> error + normalizedData" where
  "normalize input schemaKey schemaMap =
     (case schemaMap schemaKey of
        None \<Rightarrow> Inl (SchemaNotFound schemaKey)
      | Some schema \<Rightarrow>
          if isJArr input
          then (case processList (elems input) schemaKey schemaMap [] of
                  Inl e \<Rightarrow> Inl e
                | Inr (ids, ents) \<Rightarrow> Inr \<lparr>entities = ents, result = JArr ids\<rparr>)
          else if truthy input
          then (case processEntity input schemaKey (Some schema) schemaMap [] of
                  Inl e \<Rightarrow> Inl e
                | Inr (i, ents) \<Rightarrow> Inr \<lparr>entities = ents, result = i\<rparr>)
          else Inr \<lparr>entities = [], result = JUndefined\<rparr>)"

section \<open>The denormalizer (normalizer.ts)\<close>

text \<open>
  \<open>denormalizeSingle\<close> follows stored identifiers, so it need not return: a cycle among
  the stored entities recurses forever. The first argument bounds the depth of the
  calls; \<open>None\<close> is a call that has not returned within that depth.
\<close>

function denormalizeSingle ::
    "nat \<Rightarrow> jsval \<Rightarrow> string \<Rightarrow> entityColls \<Rightarrow> entitySchemaMap \<Rightarrow> (error + jsval) option"
  and denormalizeRels ::
    "nat \<Rightarrow> (string \<times> relationshipConfig) list \<Rightarrow> (string \<times> jsval) list \<Rightarrow> entityColls
      \<Rightarrow> entitySchemaMap \<Rightarrow> (error + (string \<times> jsval) list) option"
  and denormalizeList ::
    "nat \<Rightarrow> jsval list \<Rightarrow> string \<Rightarrow> entityColls \<Rightarrow> entitySchemaMap
      \<Rightarrow> (error + jsval list) option"
where
  "denormalizeSingle 0 entityId entityType ents schemaMap = None"
| "denormalizeSingle (Suc n) entityId entityType ents schemaMap =
     (case map_of ents entityType of
        None \<Rightarrow> Some (Inr JNull)
      | Some coll \<Rightarrow>
          if \<not> truthy (lookup coll (toKey entityId))
          then Some (Inr JNull)
          else
            (case schemaMap entityType of
               None \<Rightarrow> Some (Inl TypeError)
             | Some schema \<Rightarrow>
                 (case relationships schema of
                    None \<Rightarrow> Some (Inr (JObj (spreadObj (lookup coll (toKey entityId)))))
                  | Some rels \<Rightarrow>
                      (case denormalizeRels n (entries rels)
                              (spreadObj (lookup coll (toKey entityId))) ents schemaMap of
                         None \<Rightarrow> None
                       | Some (Inl e) \<Rightarrow> Some (Inl e)
                       | Some (Inr denormalizedEntity) \<Rightarrow>
                           Some (Inr (JObj denormalizedEntity))))))"
| "denormalizeRels n [] denormalizedEntity ents schemaMap = Some (Inr denormalizedEntity)"
| "denormalizeRels n ((key, rc) # rest) denormalizedEntity ents schemaMap =
     (let value = lookup denormalizedEntity key in
      if value \<noteq> JUndefined
      then
        (if isArray rc \<and> isJArr value
         then (case denormalizeList n (elems value) (rtype rc) ents schemaMap of
                 None \<Rightarrow> None
               | Some (Inl e) \<Rightarrow> Some (Inl e)
               | Some (Inr vs) \<Rightarrow>
                   denormalizeRels n rest
                     (AList.update key (JArr (filter truthy vs)) denormalizedEntity)
                     ents schemaMap)
         else if \<not> isArray rc \<and> value \<noteq> JNull
         then (case denormalizeSingle n value (rtype rc) ents schemaMap of
                 None \<Rightarrow> None
               | Some (Inl e) \<Rightarrow> Some (Inl e)
               | Some (Inr v) \<Rightarrow>
                   denormalizeRels n rest (AList.update key v denormalizedEntity)
                     ents schemaMap)
         else denormalizeRels n rest denormalizedEntity ents schemaMap)
      else denormalizeRels n rest denormalizedEntity ents schemaMap)"
| "denormalizeList n [] entityType ents schemaMap = Some (Inr [])"
| "denormalizeList n (entityId # ids) entityType ents schemaMap =
     (case denormalizeSingle n entityId entityType ents schemaMap of
        None \<Rightarrow> None
      | Some (Inl e) \<Rightarrow> Some (Inl e)
      | Some (Inr v) \<Rightarrow>
          (case denormalizeList n ids entityType ents schemaMap of
             None \<Rightarrow> None
           | Some (Inl e) \<Rightarrow> Some (Inl e)
           | Some (Inr vs) \<Rightarrow> Some (Inr (v # vs))))"


  by pat_completeness auto

termination
  by (relation "measures
        [\<lambda>x. case x of Inl (n, _) \<Rightarrow> 3 * n | Inr (Inl (n, _)) \<Rightarrow> 3 * n + 2
                      | Inr (Inr (n, _)) \<Rightarrow> 3 * n + 1,
         \<lambda>x. case x of Inl _ \<Rightarrow> 0 | Inr (Inl (n, rels, _)) \<Rightarrow> length rels
                      | Inr (Inr (n, ids, _)) \<Rightarrow> length ids]")
     auto


declare denormalizeSingle.simps(2) [simp del]

definition denormalize ::
  "nat \<Rightarrow> jsval \<Rightarrow> string \<Rightarrow> entityColls \<Rightarrow> entitySchemaMap \<Rightarrow> (error + jsval) option" where
  "denormalize fuel entityId entityType ents schemaMap =
     (if isJArr entityId
      then (case denormalizeList fuel (elems entityId) entityType ents schemaMap of
              None \<Rightarrow> None
            | Some (Inl e) \<Rightarrow> Some (Inl e)
            | Some (Inr vs) \<Rightarrow> Some (Inr (JArr (filter truthy vs))))
      else denormalizeSingle fuel entityId entityType ents schemaMap)"

section \<open>The store feature (with-normalization.ts)\<close>

record normalizationState =
  entities :: entityColls
  loading :: "(string \<times> bool) list"


datatype outcome = Returned | Thrown error

definition getEntityById :: "string \<Rightarrow> jsval \<Rightarrow> normalizationState \<Rightarrow> jsval" where
  "getEntityById entityType entityId store =
     (case map_of (entities store) entityType of
        None \<Rightarrow> JNull
      | Some coll \<Rightarrow>
          if \<not> truthy (lookup coll (toKey entityId)) then JNull
          else lookup coll (toKey entityId))"

definition getDenormalizedEntity ::
  "entitySchemaMap \<Rightarrow> nat \<Rightarrow> string \<Rightarrow> jsval \<Rightarrow> normalizationState \<Rightarrow> (error + jsval) option" where
  "getDenormalizedEntity schemas fuel entityType entityId store =
     denormalize fuel entityId entityType (entities store) schemas"

definition getDenormalizedEntities ::
  "entitySchemaMap \<Rightarrow> nat \<Rightarrow> string \<Rightarrow> normalizationState \<Rightarrow> (error + jsval) option" where
  "getDenormalizedEntities schemas fuel entityType store =
     (case map_of (entities store) entityType of
        None \<Rightarrow> Some (Inr (JArr []))
      | Some coll \<Rightarrow>
          denormalize fuel (JArr (map (JStr \<circ> fst) (entries coll))) entityType
            (entities store) schemas)"

text \<open>
  \<open>addNormalizedData\<close> calls \<open>patchState\<close> two or three times. The model returns how
  the call ends and the states of the store after each \<open>patchState\<close>, in order; the
  last one is the state the call leaves.
\<close>

definition mergeEntities :: "entityColls \<Rightarrow> entityColls \<Rightarrow> entityColls" where
  "mergeEntities new updatedEntities =
     fold (\<lambda>(type, ents) upd.
             AList.update type
               (spread (case map_of upd type of None \<Rightarrow> [] | Some c \<Rightarrow> c) ents) upd)
          (entries new) updatedEntities"

definition addNormalizedData ::
  "entitySchemaMap \<Rightarrow> jsval \<Rightarrow> string \<Rightarrow> normalizationState
     \<Rightarrow> outcome \<times> normalizationState list" where
  "addNormalizedData schemas data entityType store =
     (let s1 = store\<lparr>loading := AList.update entityType True (loading store)\<rparr> in
      case normalize data entityType schemas of
        Inl e \<Rightarrow>
          (Thrown e, [s1, s1\<lparr>loading := AList.update entityType False (loading s1)\<rparr>])
      | Inr normalizedData \<Rightarrow>
          (let s2 = s1\<lparr>entities :=
                       mergeEntities (normalizedData.entities normalizedData) (entities s1)\<rparr>
           in (Returned,
               [s1, s2, s2\<lparr>loading := AList.update entityType False (loading s2)\<rparr>])))"



definition selectDenormalized ::
  "entitySchemaMap \<Rightarrow> nat \<Rightarrow> string \<Rightarrow> jsval \<Rightarrow> normalizationState \<Rightarrow> (error + jsval) option" where
  "selectDenormalized schemas fuel entityType entityId store =
     (if entityId = JUndefined
      then getDenormalizedEntities schemas fuel entityType store
      else getDenormalizedEntity schemas fuel entityType entityId store)"

section \<open>The blog store (blog.store.ts)\<close>

definition schemas :: entitySchemaMap where
  "schemas = map_of
     [(''users'', createEntitySchema (Some ''username'') None),
      (''comments'', createEntitySchema (Some ''id'') (Some [(''author'', hasOne ''users'')])),
      (''posts'', createEntitySchema (Some ''id'')
         (Some [(''author'', hasOne ''users''), (''comments'', hasMany ''comments'')]))]"

definition user :: "string \<Rightarrow> string \<Rightarrow> jsval" where
  "user u n = JObj [(''username'', JStr u), (''name'', JStr n)]"

definition comment :: "string \<Rightarrow> jsval \<Rightarrow> string \<Rightarrow> jsval" where
  "comment i a c = JObj [(''id'', JStr i), (''author'', a), (''comment'', JStr c)]"

definition post :: "string \<Rightarrow> jsval \<Rightarrow> string \<Rightarrow> jsval list \<Rightarrow> jsval" where
  "post i a b cs = JObj [(''id'', JStr i), (''author'', a), (''body'', JStr b), (''comments'', JArr cs)]"

definition sampleBlogData :: jsval where
  "sampleBlogData = JArr
     [post ''post1'' (user ''user1'' ''User 1'') ''This is the first post content.''
        [comment ''comment1'' (user ''user2'' ''User 2'') ''Great post!'',
         comment ''comment2'' (user ''user3'' ''User 3'') ''I learned a lot from this.''],
      post ''post2'' (user ''user2'' ''User 2'') ''This is the second post content.''
        [comment ''comment3'' (user ''user3'' ''User 3'') ''Interesting perspective!'',
         comment ''comment4'' (user ''user1'' ''User 1'') ''I disagree with some points.'',
         comment ''comment5'' (user ''user3'' ''User 3'') ''Could you elaborate more?'']]"

text \<open>The collections that normalizing the sample data produces.\<close>

definition blogEntities :: entityColls where
  "blogEntities =
  [(''posts'',
         [(''post1'',
           JObj
            [(''id'', JStr ''post1''), (''author'', JStr ''user1''),
             (''body'', JStr ''This is the first post content.''),
             (''comments'', JArr [JStr ''comment1'', JStr ''comment2''])]),
          (''post2'',
           JObj
            [(''id'', JStr ''post2''), (''author'', JStr ''user2''),
             (''body'', JStr ''This is the second post content.''),
             (''comments'',
              JArr [JStr ''comment3'', JStr ''comment4'', JStr ''comment5''])])]),
        (''users'',
         [(''user1'', user ''user1'' ''User 1''),
          (''user2'', user ''user2'' ''User 2''),
          (''user3'', user ''user3'' ''User 3'')]),
        (''comments'',
         [(''comment1'', comment ''comment1'' (JStr ''user2'') ''Great post!''),
          (''comment2'', comment ''comment2'' (JStr ''user3'') ''I learned a lot from this.''),
          (''comment3'', comment ''comment3'' (JStr ''user3'') ''Interesting perspective!''),
          (''comment4'', comment ''comment4'' (JStr ''user1'') ''I disagree with some points.''),
          (''comment5'', comment ''comment5'' (JStr ''user3'') ''Could you elaborate more?'')])]"

text \<open>The first post of the sample data, and the collections that normalizing it alone
  produces.\<close>

definition samplePost1 :: "(string \<times> jsval) list" where
  "samplePost1 =
     [(''id'', JStr ''post1''), (''author'', user ''user1'' ''User 1''),
      (''body'', JStr ''This is the first post content.''),
      (''comments'', JArr
        [comment ''comment1'' (user ''user2'' ''User 2'') ''Great post!'',
         comment ''comment2'' (user ''user3'' ''User 3'') ''I learned a lot from this.''])]"

definition post1Entities :: entityColls where
  "post1Entities =
       [(''posts'', [(''post1'', JObj
            [(''id'', JStr ''post1''), (''author'', JStr ''user1''),
             (''body'', JStr ''This is the first post content.''),
             (''comments'', JArr [JStr ''comment1'', JStr ''comment2''])])]),
        (''users'',
         [(''user1'', user ''user1'' ''User 1''),
          (''user2'', user ''user2'' ''User 2''),
          (''user3'', user ''user3'' ''User 3'')]),
        (''comments'',
         [(''comment1'', comment ''comment1'' (JStr ''user2'') ''Great post!''),
          (''comment2'', comment ''comment2'' (JStr ''user3'') ''I learned a lot from this.'')])]"

text \<open>The store once the sample data is loaded.\<close>

definition blogStore :: normalizationState where
  "blogStore = \<lparr>entities = blogEntities,
     loading = [(''users'', False), (''comments'', False), (''posts'', False)]\<rparr>"






section \<open>Vocabulary of the properties\<close>

text \<open>The entity stored under a type and a property key, if any.\<close>

definition entityAt :: "entityColls \<Rightarrow> string \<Rightarrow> string \<Rightarrow> jsval option" where
  "entityAt ents t k = (case map_of ents t of None \<Rightarrow> None | Some coll \<Rightarrow> map_of coll k)"


text \<open>The relationship entries the normalizer walks, and the identifier of an entity
  of a type.\<close>

definition relsOf :: "entitySchema \<Rightarrow> (string \<times> relationshipConfig) list" where
  "relsOf sch = (case relationships sch of None \<Rightarrow> [] | Some rels \<Rightarrow> entries rels)"

definition entityIdOf :: "entitySchemaMap \<Rightarrow> string \<Rightarrow> jsval \<Rightarrow> jsval" where
  "entityIdOf sm t e =
     (case sm t of None \<Rightarrow> JUndefined | Some sch \<Rightarrow> lookup (spreadObj e) (idKeyOf sch))"










text \<open>
  The entity as \<open>processEntity\<close> stores it (each relationship field replaced by the
  identifiers of what it holds), the property key it is stored under, the relation
  between the collections before and after a call that stores the entities \<open>W\<close>, and
  the collections \<open>S\<close> holding an entity in its stored form.
\<close>

fun flatRels ::
  "entitySchemaMap \<Rightarrow> (string \<times> relationshipConfig) list \<Rightarrow> (string \<times> jsval) list
     \<Rightarrow> (string \<times> jsval) list" where
  "flatRels sm [] kvs = kvs"
| "flatRels sm ((key, rc) # rest) kvs =
     flatRels sm rest
       (if lookup kvs key \<noteq> JUndefined \<and> isArray rc \<and> isJArr (lookup kvs key)
        then AList.update key (JArr (map (entityIdOf sm (rtype rc)) (elems (lookup kvs key)))) kvs
        else if lookup kvs key \<noteq> JUndefined \<and> \<not> isArray rc \<and> lookup kvs key \<noteq> JNull
        then AList.update key (entityIdOf sm (rtype rc) (lookup kvs key)) kvs
        else kvs)"

definition flatEntity :: "entitySchemaMap \<Rightarrow> string \<Rightarrow> jsval \<Rightarrow> jsval" where
  "flatEntity sm t e =
     JObj (flatRels sm (case sm t of None \<Rightarrow> [] | Some sch \<Rightarrow> relsOf sch) (spreadObj e))"

definition keyOf :: "entitySchemaMap \<Rightarrow> string \<Rightarrow> jsval \<Rightarrow> string" where
  "keyOf sm t e = toKey (entityIdOf sm t e)"


definition stored :: "entitySchemaMap \<Rightarrow> entityColls \<Rightarrow> string \<times> jsval \<Rightarrow> bool" where
  "stored sm S x \<longleftrightarrow> entityAt S (fst x) (keyOf sm (fst x) (snd x)) = Some (flatEntity sm (fst x) (snd x))"




section \<open>Basic facts\<close>


lemma entityAt_update:
  "entityAt (AList.update t (AList.update k v coll) ents) t' k' =
     (if t' = t then (if k' = k then Some v else map_of coll k') else entityAt ents t' k')"
  by (auto simp: entityAt_def update_conv')



lemma processEntity_obj:
  "processEntity (JObj kvs) t (Some sch) sm nd =
     (if lookup kvs (idKeyOf sch) = JUndefined then Inl (MissingIdentifier (idKeyOf sch) t)
      else case processRels (relsOf sch) kvs sm (initColl t nd) of
             Inl e \<Rightarrow> Inl e
           | Inr (pe, nd') \<Rightarrow>
               (case map_of nd' t of
                  None \<Rightarrow> Inl TypeError
                | Some coll \<Rightarrow>
                    Inr (lookup kvs (idKeyOf sch),
                         AList.update t
                           (AList.update (toKey (lookup kvs (idKeyOf sch))) (JObj pe) coll) nd')))"
  by (simp add: processEntity.simps relsOf_def initColl_def split: option.splits)

lemma processEntity_Inr:
  assumes "processEntity e t s sm nd = Inr (i, nd')"
  obtains sch kvs where "s = Some sch" "e = JObj kvs" "i = lookup kvs (idKeyOf sch)" "i \<noteq> JUndefined"
proof -
  from assms obtain sch where s: "s = Some sch"
    by (cases s) (auto simp: processEntity.simps initColl_def)
  from assms s have "\<exists>v. getProp e (idKeyOf sch) = Inr v \<and> v \<noteq> JUndefined \<and> v = i"
    by (auto simp: processEntity.simps initColl_def split: sum.splits if_splits option.splits prod.splits)
  then obtain kvs where "e = JObj kvs" "i = lookup kvs (idKeyOf sch)" "i \<noteq> JUndefined"
    by (auto dest: getProp_Inr)
  with s show ?thesis using that by blast
qed

lemma processEntity_id_eq:
  "processEntity e t (sm t) sm nd = Inr (i, nd') \<Longrightarrow> i = entityIdOf sm t e"
  by (erule processEntity_Inr) (simp add: entityIdOf_def)

lemma processList_ids_eq:
  "processList items t sm nd = Inr (ids, nd') \<Longrightarrow> ids = map (entityIdOf sm t) items"
  by (induction items arbitrary: ids nd)
     (auto split: sum.splits prod.splits dest: processEntity_id_eq)

lemma lookup_update: "lookup (AList.update k v kvs) k' = (if k' = k then v else lookup kvs k')"
  by (simp add: lookup_def update_conv')

lemma isJArr_elems: "isJArr v \<Longrightarrow> v = JArr (elems v)"
  by (cases v) auto

lemma processRels_step:
  assumes "processRels ((key, rc) # rest) pe sm nd = Inr (pe', nd')"
  obtains (skip) "processRels rest pe sm nd = Inr (pe', nd')"
      "lookup pe key = JUndefined \<or> (isArray rc \<and> \<not> isJArr (lookup pe key))
         \<or> (\<not> isArray rc \<and> lookup pe key = JNull)"
    | (many) items ids nd1 where "isArray rc" "lookup pe key = JArr items"
      "processList items (rtype rc) sm nd = Inr (ids, nd1)"
      "processRels rest (AList.update key (JArr ids) pe) sm nd1 = Inr (pe', nd')"
    | (one) i nd1 where "\<not> isArray rc" "lookup pe key \<noteq> JUndefined" "lookup pe key \<noteq> JNull"
      "processEntity (lookup pe key) (rtype rc) (sm (rtype rc)) sm nd = Inr (i, nd1)"
      "processRels rest (AList.update key i pe) sm nd1 = Inr (pe', nd')"
proof (cases "lookup pe key = JUndefined")
  case True
  with assms show ?thesis by (intro skip) (simp_all add: Let_def)
next
  case u: False
  show ?thesis
  proof (cases "isArray rc")
    case arr: True
    show ?thesis
    proof (cases "isJArr (lookup pe key)")
      case True
      from assms u arr True obtain ids nd1 where
        "processList (elems (lookup pe key)) (rtype rc) sm nd = Inr (ids, nd1)"
        "processRels rest (AList.update key (JArr ids) pe) sm nd1 = Inr (pe', nd')"
        by (auto simp: Let_def split: sum.splits prod.splits)
      with arr isJArr_elems[OF True] show ?thesis
        by (intro many[of "elems (lookup pe key)" ids nd1]) simp_all
    next
      case False
      with assms u arr show ?thesis by (intro skip) (simp_all add: Let_def)
    qed
  next
    case one': False
    show ?thesis
    proof (cases "lookup pe key = JNull")
      case True
      with assms u one' show ?thesis by (intro skip) (simp_all add: Let_def)
    next
      case False
      from assms u one' False obtain i nd1 where
        "processEntity (lookup pe key) (rtype rc) (sm (rtype rc)) sm nd = Inr (i, nd1)"
        "processRels rest (AList.update key i pe) sm nd1 = Inr (pe', nd')"
        by (auto simp: Let_def split: sum.splits prod.splits)
      with u one' False show ?thesis
        by (intro one[of i nd1]) simp_all
    qed
  qed
qed

lemma processRels_other:
  "processRels rels pe sm nd = Inr (pe', nd') \<Longrightarrow> k \<notin> fst ` set rels \<Longrightarrow> lookup pe' k = lookup pe k"
proof (induction rels arbitrary: pe nd)
  case Nil then show ?case by simp
next
  case (Cons r rels)
  obtain key rc where r: "r = (key, rc)" by (cases r)
  from Cons.prems(2) r have ne: "k \<noteq> key" and nin: "k \<notin> fst ` set rels" by auto
  from Cons.prems(1)[unfolded r] show ?case
  proof (cases rule: processRels_step)
    case skip
    with Cons.IH nin show ?thesis by blast
  next
    case (many items ids nd1)
    from Cons.IH[OF many(4) nin] ne show ?thesis by (simp add: lookup_update)
  next
    case (one i nd1)
    from Cons.IH[OF one(5) nin] ne show ?thesis by (simp add: lookup_update)
  qed
qed

lemma processRels_many:
  assumes "processRels rels pe sm nd = Inr (pe', nd')"
    and "distinct (map fst rels)" and "(k, rc) \<in> set rels" and "isArray rc"
    and "lookup pe k = JArr items"
  shows "lookup pe' k = JArr (map (entityIdOf sm (rtype rc)) items)"
  using assms
proof (induction rels arbitrary: pe nd)
  case Nil then show ?case by simp
next
  case (Cons r rels)
  obtain key rc' where r: "r = (key, rc')" by (cases r)
  show ?case
  proof (cases "key = k")
    case True
    with Cons.prems(2,3) r have rc': "rc' = rc" and nin: "k \<notin> fst ` set rels"
      by (auto simp: image_iff)
    from Cons.prems(1)[unfolded r True rc'] show ?thesis
    proof (cases rule: processRels_step)
      case skip
      with Cons.prems(4,5) show ?thesis by simp
    next
      case (many items' ids nd1)
      with Cons.prems(5) have "items' = items" by simp
      with processRels_other[OF many(4) nin] processList_ids_eq[OF many(3)] show ?thesis
        by (simp add: lookup_update)
    next
      case (one i nd1)
      with Cons.prems(4) show ?thesis by simp
    qed
  next
    case False
    from Cons.prems(2,3) r False have d: "distinct (map fst rels)" and m: "(k, rc) \<in> set rels" by auto
    from Cons.prems(1)[unfolded r] show ?thesis
    proof (cases rule: processRels_step)
      case skip
      from Cons.IH[OF skip(1) d m Cons.prems(4,5)] show ?thesis .
    next
      case (many items' ids nd1)
      from False Cons.prems(5) have "lookup (AList.update key (JArr ids) pe) k = JArr items"
        by (simp add: lookup_update)
      from Cons.IH[OF many(4) d m Cons.prems(4) this] show ?thesis .
    next
      case (one i nd1)
      from False Cons.prems(5) have "lookup (AList.update key i pe) k = JArr items"
        by (simp add: lookup_update)
      from Cons.IH[OF one(5) d m Cons.prems(4) this] show ?thesis .
    qed
  qed
qed

lemma relsOf_distinct: "distinct (map fst (relsOf sch))"
  by (simp add: relsOf_def entries_def split: option.splits)

lemma relsOf_mem:
  assumes "relationships sch = Some rels" and "map_of rels k = Some rc"
  shows "(k, rc) \<in> set (relsOf sch)"
proof -
  have "map_of (AList.clearjunk rels) k = Some rc" using assms(2) by (simp add: map_of_clearjunk)
  from map_of_SomeD[OF this] assms(1) show ?thesis by (simp add: relsOf_def entries_def)
qed














section \<open>Evaluation on the sample data\<close>

lemma rels_simps:
  "relationships (createEntitySchema k (Some r)) = Some r"
  "relationships (createEntitySchema k None) = Some []"
  "idKeyOf (createEntitySchema (Some ''id'') q) = ''id''"
  "idKeyOf (createEntitySchema (Some ''username'') q) = ''username''"
  by (simp_all add: createEntitySchema_def idKeyOf_def)

lemma norm_blog: "normalize sampleBlogData ''posts'' schemas = Inr \<lparr>normalizedData.entities = blogEntities, result = JArr [JStr ''post1'', JStr ''post2'']\<rparr>"
  by (simp add: normalize_def sampleBlogData_def schemas_def processEntity.simps initColl_def rels_simps
       post_def comment_def user_def hasOne_def hasMany_def entries_def lookup_def blogEntities_def)

lemma denorm_blog:
  "denormalize (Suc (Suc (Suc n))) (JStr ''post1'') ''posts'' blogEntities schemas =
     Some (Inr (post ''post1'' (user ''user1'' ''User 1'') ''This is the first post content.''
        [comment ''comment1'' (user ''user2'' ''User 2'') ''Great post!'',
         comment ''comment2'' (user ''user3'' ''User 3'') ''I learned a lot from this.'']))"
  by (simp add: denormalize_def denormalizeSingle.simps schemas_def rels_simps
       post_def comment_def user_def hasOne_def hasMany_def entries_def lookup_def blogEntities_def)

lemma sample_items:
  "sampleBlogData = JArr
     [JObj samplePost1,
      post ''post2'' (user ''user2'' ''User 2'') ''This is the second post content.''
        [comment ''comment3'' (user ''user3'' ''User 3'') ''Interesting perspective!'',
         comment ''comment4'' (user ''user1'' ''User 1'') ''I disagree with some points.'',
         comment ''comment5'' (user ''user3'' ''User 3'') ''Could you elaborate more?'']]"
  by (simp add: sampleBlogData_def samplePost1_def post_def)

lemma schemas_posts:
  "schemas ''posts'' = Some (createEntitySchema (Some ''id'')
         (Some [(''author'', hasOne ''users''), (''comments'', hasMany ''comments'')]))"
  by (simp add: schemas_def)

lemma process_post1:
  "processEntity (JObj samplePost1) ''posts'' (schemas ''posts'') schemas [] =
     Inr (JStr ''post1'',
       [(''posts'', [(''post1'', JObj
            [(''id'', JStr ''post1''), (''author'', JStr ''user1''),
             (''body'', JStr ''This is the first post content.''),
             (''comments'', JArr [JStr ''comment1'', JStr ''comment2''])])]),
        (''users'',
         [(''user1'', user ''user1'' ''User 1''),
          (''user2'', user ''user2'' ''User 2''),
          (''user3'', user ''user3'' ''User 3'')]),
        (''comments'',
         [(''comment1'', comment ''comment1'' (JStr ''user2'') ''Great post!''),
          (''comment2'', comment ''comment2'' (JStr ''user3'') ''I learned a lot from this.'')])])"
  by (simp add: samplePost1_def schemas_def processEntity.simps initColl_def rels_simps
       comment_def user_def hasOne_def hasMany_def entries_def lookup_def)








text \<open>
  Claim C9. On the blog dataset, normalizing with root type \<open>posts\<close> yields three
  users, five comments, two posts and the result \<open>["post1", "post2"]\<close>; denormalizing
  \<open>"post1"\<close> from these collections (at any call depth from three on) yields the post
  with its author resolved to the user1 object and its comments resolved to the objects
  of comment1 and comment2, in order, each with its own author resolved.
\<close>

theorem blog_scenario:
  "\<exists>nd users comments posts.
     normalize sampleBlogData ''posts'' schemas = Inr nd
   \<and> map_of (normalizedData.entities nd) ''users'' = Some users \<and> length (entries users) = 3
   \<and> map_of (normalizedData.entities nd) ''comments'' = Some comments \<and> length (entries comments) = 5
   \<and> map_of (normalizedData.entities nd) ''posts'' = Some posts \<and> length (entries posts) = 2
   \<and> result nd = JArr [JStr ''post1'', JStr ''post2'']
   \<and> denormalize (Suc (Suc (Suc n))) (JStr ''post1'') ''posts'' (normalizedData.entities nd) schemas =
       Some (Inr (JObj
         [(''id'', JStr ''post1''),
          (''author'', user ''user1'' ''User 1''),
          (''body'', JStr ''This is the first post content.''),
          (''comments'', JArr
             [JObj [(''id'', JStr ''comment1''), (''author'', user ''user2'' ''User 2''),
                    (''comment'', JStr ''Great post!'')],
              JObj [(''id'', JStr ''comment2''), (''author'', user ''user3'' ''User 3''),
                    (''comment'', JStr ''I learned a lot from this.'')]])]))"
proof -
  have "map_of blogEntities ''users'' =
      Some [(''user1'', user ''user1'' ''User 1''), (''user2'', user ''user2'' ''User 2''),
            (''user3'', user ''user3'' ''User 3'')]"
    by (simp add: blogEntities_def)
  moreover have "map_of blogEntities ''comments'' = Some
         [(''comment1'', comment ''comment1'' (JStr ''user2'') ''Great post!''),
          (''comment2'', comment ''comment2'' (JStr ''user3'') ''I learned a lot from this.''),
          (''comment3'', comment ''comment3'' (JStr ''user3'') ''Interesting perspective!''),
          (''comment4'', comment ''comment4'' (JStr ''user1'') ''I disagree with some points.''),
          (''comment5'', comment ''comment5'' (JStr ''user3'') ''Could you elaborate more?'')]"
    by (simp add: blogEntities_def)
  moreover have "map_of blogEntities ''posts'' = Some
         [(''post1'', post ''post1'' (JStr ''user1'') ''This is the first post content.''
              [JStr ''comment1'', JStr ''comment2'']),
          (''post2'', post ''post2'' (JStr ''user2'') ''This is the second post content.''
              [JStr ''comment3'', JStr ''comment4'', JStr ''comment5''])]"
    by (simp add: blogEntities_def post_def)
  ultimately show ?thesis
    using norm_blog denorm_blog[of n]
    by (simp add: entries_def post_def comment_def)
qed


section \<open>Unknown types\<close>




text \<open>A relationship target type absent from the schema map is not checked: the
  nested call reads \<open>schema.idKey\<close> of \<open>undefined\<close>.\<close>

lemma nested_unknown_type:
  "normalize (JObj [(''id'', JStr ''c1''), (''author'', JObj [(''username'', JStr ''u1'')])])
     ''comments'' (map_of [(''comments'', createEntitySchema (Some ''id'') (Some [(''author'', hasOne ''users'')]))])
   = Inl TypeError"
  by (simp add: normalize_def processEntity.simps initColl_def rels_simps hasOne_def entries_def lookup_def)

section \<open>The store operations\<close>




text \<open>
  Claim C8. A call of \<open>addNormalizedData\<close> goes through at least two states. The first
  differs from the state before the call only in the loading flag of the target type,
  which is true; the flag is true in every state but the last; in the last state it is
  false, whether the call returned or the normalization threw.
\<close>

theorem addNormalizedData_loading:
  "fst (addNormalizedData schemaMap data entityType store) =
     (case normalize data entityType schemaMap of Inl e \<Rightarrow> Thrown e | Inr nd \<Rightarrow> Returned)
   \<and> 2 \<le> length (snd (addNormalizedData schemaMap data entityType store))
   \<and> entities (hd (snd (addNormalizedData schemaMap data entityType store))) = entities store
   \<and> list_all (\<lambda>s. map_of (loading s) entityType = Some True)
        (butlast (snd (addNormalizedData schemaMap data entityType store)))
   \<and> map_of (loading (last (snd (addNormalizedData schemaMap data entityType store)))) entityType
        = Some False"
  by (cases "normalize data entityType schemaMap")
     (simp_all add: addNormalizedData_def Let_def update_conv')

text \<open>
  Claim C10. When the normalization inside \<open>addNormalizedData\<close> throws, the call
  throws that error, the entity collections are those of the state before the call in
  every state the call goes through, and the loading flag of the target type is false
  in the state it leaves.
\<close>

theorem addNormalizedData_atomic:
  assumes "normalize data entityType schemaMap = Inl e"
  shows "fst (addNormalizedData schemaMap data entityType store) = Thrown e
       \<and> list_all (\<lambda>s. entities s = entities store)
            (snd (addNormalizedData schemaMap data entityType store))
       \<and> map_of (loading (last (snd (addNormalizedData schemaMap data entityType store))))
            entityType = Some False"
  using assms by (simp add: addNormalizedData_def Let_def update_conv')

theorem addNormalizedData_atomic_witness:
  "normalize sampleBlogData ''tags'' schemas = Inl (SchemaNotFound ''tags'')
   \<and> fst (addNormalizedData schemas sampleBlogData ''tags'' blogStore) = Thrown (SchemaNotFound ''tags'')
   \<and> list_all (\<lambda>s. entities s = entities blogStore)
        (snd (addNormalizedData schemas sampleBlogData ''tags'' blogStore))
   \<and> map_of (loading (last (snd (addNormalizedData schemas sampleBlogData ''tags'' blogStore))))
        ''tags'' = Some False
   \<and> normalize (JArr [JObj [(''username'', JStr ''user9'')], JObj [(''name'', JStr ''No Id'')]])
        ''users'' schemas = Inl (MissingIdentifier ''username'' ''users'')
   \<and> fst (addNormalizedData schemas
             (JArr [JObj [(''username'', JStr ''user9'')], JObj [(''name'', JStr ''No Id'')]])
             ''users'' blogStore) = Thrown (MissingIdentifier ''username'' ''users'')
   \<and> list_all (\<lambda>s. entities s = entities blogStore)
        (snd (addNormalizedData schemas
             (JArr [JObj [(''username'', JStr ''user9'')], JObj [(''name'', JStr ''No Id'')]])
             ''users'' blogStore))
   \<and> map_of (loading (last (snd (addNormalizedData schemas
             (JArr [JObj [(''username'', JStr ''user9'')], JObj [(''name'', JStr ''No Id'')]])
             ''users'' blogStore)))) ''users'' = Some False"
proof -
  have a: "normalize sampleBlogData ''tags'' schemas = Inl (SchemaNotFound ''tags'')"
    by (simp add: normalize_def schemas_def)
  have b: "normalize (JArr [JObj [(''username'', JStr ''user9'')], JObj [(''name'', JStr ''No Id'')]])
        ''users'' schemas = Inl (MissingIdentifier ''username'' ''users'')"
    by (simp add: normalize_def schemas_def processEntity.simps initColl_def rels_simps entries_def lookup_def)
  show ?thesis
    using a b addNormalizedData_atomic [OF a, of blogStore] addNormalizedData_atomic [OF b, of blogStore]
    by blast
qed

section \<open>Order of identifiers\<close>

text \<open>
  Claim C7. For an array input, the result of \<open>normalize\<close> is the sequence of the
  identifiers of the top-level entities, in the order of the input. For a plural
  relationship field of an entity that holds an array, the entity that \<open>processEntity\<close>
  stores (every entity, at every level, is stored by such a call) has in that field the
  sequence of the identifiers of the nested entities, in the order of the input.
\<close>

theorem normalize_preserves_order:
  "(normalize (JArr items) entityType schemaMap = Inr nd \<longrightarrow>
      result nd = JArr (map (entityIdOf schemaMap entityType) items))
   \<and> (processEntity (JObj kvs) entityType (Some schema) schemaMap ents = Inr (entityId, ents')
        \<and> relationships schema = Some rels \<and> map_of rels key = Some rc \<and> isArray rc
        \<and> lookup kvs key = JArr nested \<longrightarrow>
      (\<exists>stored. entityAt ents' entityType (toKey entityId) = Some (JObj stored)
         \<and> lookup stored key = JArr (map (entityIdOf schemaMap (rtype rc)) nested)))"
proof (intro conjI impI)
  assume "normalize (JArr items) entityType schemaMap = Inr nd"
  then show "result nd = JArr (map (entityIdOf schemaMap entityType) items)"
    by (auto simp: normalize_def split: option.splits sum.splits prod.splits
             dest: processList_ids_eq)
next
  assume a: "processEntity (JObj kvs) entityType (Some schema) schemaMap ents = Inr (entityId, ents')
        \<and> relationships schema = Some rels \<and> map_of rels key = Some rc \<and> isArray rc
        \<and> lookup kvs key = JArr nested"
  then obtain pe nd2 coll where
    p: "processRels (relsOf schema) kvs schemaMap (initColl entityType ents) = Inr (pe, nd2)"
    and c: "map_of nd2 entityType = Some coll"
    and e: "ents' = AList.update entityType (AList.update (toKey entityId) (JObj pe) coll) nd2"
    by (auto simp: processEntity_obj split: if_splits sum.splits prod.splits option.splits)
  from a have "(key, rc) \<in> set (relsOf schema)" by (auto intro: relsOf_mem)
  from processRels_many[OF p relsOf_distinct this] a
  have "lookup pe key = JArr (map (entityIdOf schemaMap (rtype rc)) nested)" by blast
  moreover from e have "entityAt ents' entityType (toKey entityId) = Some (JObj pe)"
    by (simp add: entityAt_update)
  ultimately show "\<exists>stored. entityAt ents' entityType (toKey entityId) = Some (JObj stored)
         \<and> lookup stored key = JArr (map (entityIdOf schemaMap (rtype rc)) nested)"
    by blast
qed

theorem normalize_preserves_order_witness:
  "normalize sampleBlogData ''posts'' schemas =
     Inr \<lparr>normalizedData.entities = blogEntities, result = JArr [JStr ''post1'', JStr ''post2'']\<rparr>
   \<and> JArr [JStr ''post1'', JStr ''post2''] = JArr (map (entityIdOf schemas ''posts'') (elems sampleBlogData))
   \<and> processEntity (JObj samplePost1) ''posts'' (schemas ''posts'') schemas [] = Inr (JStr ''post1'', post1Entities)
   \<and> lookup samplePost1 ''comments'' = JArr
            [comment ''comment1'' (user ''user2'' ''User 2'') ''Great post!'',
             comment ''comment2'' (user ''user3'' ''User 3'') ''I learned a lot from this.'']
   \<and> (\<exists>stored. entityAt post1Entities ''posts'' ''post1'' = Some (JObj stored)
       \<and> lookup stored ''comments'' = JArr [JStr ''comment1'', JStr ''comment2''])"
proof -
  let ?c = "[comment ''comment1'' (user ''user2'' ''User 2'') ''Great post!'',
             comment ''comment2'' (user ''user3'' ''User 3'') ''I learned a lot from this.'']"
  let ?rels = "[(''author'', hasOne ''users''), (''comments'', hasMany ''comments'')]"
  let ?sch = "createEntitySchema (Some ''id'') (Some ?rels)"
  note inst = normalize_preserves_order
    [where items = "elems sampleBlogData" and entityType = "''posts''" and schemaMap = schemas
       and nd = "\<lparr>normalizedData.entities = blogEntities, result = JArr [JStr ''post1'', JStr ''post2'']\<rparr>"
       and kvs = samplePost1 and schema = ?sch and ents = "[]" and entityId = "JStr ''post1''"
       and ents' = post1Entities and rels = ?rels and key = "''comments''"
       and rc = "hasMany ''comments''" and nested = ?c]
  have n: "normalize (JArr (elems sampleBlogData)) ''posts'' schemas =
     Inr \<lparr>normalizedData.entities = blogEntities, result = JArr [JStr ''post1'', JStr ''post2'']\<rparr>"
    using norm_blog by (simp add: sample_items)
  have p: "processEntity (JObj samplePost1) ''posts'' (Some ?sch) schemas [] = Inr (JStr ''post1'', post1Entities)"
    using process_post1 by (simp add: schemas_posts post1Entities_def)
  have l: "lookup samplePost1 ''comments'' = JArr ?c"
    by (simp add: samplePost1_def lookup_def)
  have r: "relationships ?sch = Some ?rels"
     "map_of ?rels ''comments'' = Some (hasMany ''comments'')"
     "isArray (hasMany ''comments'')" "rtype (hasMany ''comments'') = ''comments''"
    by (simp_all add: rels_simps hasMany_def)
  have ids: "map (entityIdOf schemas ''comments'') ?c = [JStr ''comment1'', JStr ''comment2'']"
    by (simp add: entityIdOf_def schemas_def rels_simps comment_def lookup_def)
  from inst n have 1: "JArr [JStr ''post1'', JStr ''post2''] = JArr (map (entityIdOf schemas ''posts'') (elems sampleBlogData))"
    by simp
  from inst p l r ids
  have 2: "\<exists>stored. entityAt post1Entities ''posts'' ''post1'' = Some (JObj stored)
       \<and> lookup stored ''comments'' = JArr [JStr ''comment1'', JStr ''comment2'']"
    by simp
  from norm_blog 1 2 p l show ?thesis by (simp add: schemas_posts)
qed


section \<open>Absent entities and dangling references\<close>








section \<open>Missing identifiers\<close>




section \<open>Round trip\<close>


















lemma weight_elem: "x \<in> set items \<Longrightarrow> weight x < weightL items"
  by (induction items) (auto simp: weightL_def)










end
